theory Spec2Isabelle
  imports Complex_Main
begin

section \<open>JavaScript numbers\<close>

text \<open>
  The analysis code of \<^verbatim>\<open>src/app.vue\<close> computes with JavaScript numbers. A number is
  modelled as a real, one of the two infinities, or NaN. Finite arithmetic is exact: the
  rounding of IEEE-754 doubles is abstracted away, the special values are not. A sum, a
  quotient or a product of the model can therefore differ from the double the code
  computes by the rounding error, and a value rounded to an integer by one; signs,
  bounds and the special values are those of the code. Every divisor and every sum in
  the code is non-negative, so the sign of zero plays no role and a zero divisor is
  taken to be positive zero.
\<close>

datatype number = NaN | NegInf | Fin real | PosInf

fun Math_abs :: "number \<Rightarrow> number" where
  "Math_abs NaN = NaN"
| "Math_abs NegInf = PosInf"
| "Math_abs (Fin x) = Fin \<bar>x\<bar>"
| "Math_abs PosInf = PosInf"

fun js_add :: "number \<Rightarrow> number \<Rightarrow> number" where
  "js_add NaN b = NaN"
| "js_add a NaN = NaN"
| "js_add (Fin x) (Fin y) = Fin (x + y)"
| "js_add PosInf NegInf = NaN"
| "js_add NegInf PosInf = NaN"
| "js_add PosInf b = PosInf"
| "js_add a PosInf = PosInf"
| "js_add NegInf b = NegInf"
| "js_add a NegInf = NegInf"

fun js_mul :: "number \<Rightarrow> number \<Rightarrow> number" where
  "js_mul NaN b = NaN"
| "js_mul a NaN = NaN"
| "js_mul (Fin x) (Fin y) = Fin (x * y)"
| "js_mul (Fin x) PosInf = (if x = 0 then NaN else if 0 < x then PosInf else NegInf)"
| "js_mul (Fin x) NegInf = (if x = 0 then NaN else if 0 < x then NegInf else PosInf)"
| "js_mul PosInf (Fin y) = (if y = 0 then NaN else if 0 < y then PosInf else NegInf)"
| "js_mul NegInf (Fin y) = (if y = 0 then NaN else if 0 < y then NegInf else PosInf)"
| "js_mul PosInf PosInf = PosInf"
| "js_mul PosInf NegInf = NegInf"
| "js_mul NegInf PosInf = NegInf"
| "js_mul NegInf NegInf = PosInf"

fun js_div :: "number \<Rightarrow> number \<Rightarrow> number" where
  "js_div NaN b = NaN"
| "js_div a NaN = NaN"
| "js_div (Fin x) (Fin y) =
     (if y = 0 then (if x = 0 then NaN else if 0 < x then PosInf else NegInf)
      else Fin (x / y))"
| "js_div (Fin x) PosInf = Fin 0"
| "js_div (Fin x) NegInf = Fin 0"
| "js_div PosInf (Fin y) = (if 0 \<le> y then PosInf else NegInf)"
| "js_div NegInf (Fin y) = (if 0 \<le> y then NegInf else PosInf)"
| "js_div PosInf PosInf = NaN"
| "js_div PosInf NegInf = NaN"
| "js_div NegInf PosInf = NaN"
| "js_div NegInf NegInf = NaN"

text \<open>\<^verbatim>\<open>a > b\<close>: false as soon as one side is NaN.\<close>

fun js_gt :: "number \<Rightarrow> number \<Rightarrow> bool" where
  "js_gt NaN b = False"
| "js_gt a NaN = False"
| "js_gt (Fin x) (Fin y) = (y < x)"
| "js_gt PosInf PosInf = False"
| "js_gt PosInf b = True"
| "js_gt a PosInf = False"
| "js_gt NegInf b = False"
| "js_gt a NegInf = True"

text \<open>\<^verbatim>\<open>Math.round\<close> rounds to the nearest integer, halves towards plus infinity.\<close>

fun Math_round :: "number \<Rightarrow> number" where
  "Math_round (Fin x) = Fin (of_int \<lfloor>x + 1 / 2\<rfloor>)"
| "Math_round a = a"

fun Math_min :: "number \<Rightarrow> number \<Rightarrow> number" where
  "Math_min NaN b = NaN"
| "Math_min a NaN = NaN"
| "Math_min (Fin x) (Fin y) = Fin (min x y)"
| "Math_min NegInf b = NegInf"
| "Math_min a NegInf = NegInf"
| "Math_min PosInf b = b"
| "Math_min a PosInf = a"

section \<open>The reduction of one frame\<close>

text \<open>
  A frame is the \<^verbatim>\<open>Float32Array\<close> returned by \<^verbatim>\<open>analyser.getValue()\<close>, a list of
  numbers. The three loops of \<^verbatim>\<open>analyzeWithTone\<close> and \<^verbatim>\<open>updateFrequencyBars\<close>
  are folds over the frame, in the order of the source.
\<close>

text \<open>Lines 105 to 108: \<^verbatim>\<open>sum += Math.abs(values[i])\<close>.\<close>

definition abs_sum :: "number list \<Rightarrow> number" where
  "abs_sum values = foldl (\<lambda>sum v. js_add sum (Math_abs v)) (Fin 0) values"

text \<open>Lines 109 and 110: the published volume.\<close>

definition volume_of :: "number list \<Rightarrow> number" where
  "volume_of values =
     (let average = js_div (abs_sum values) (Fin (real (length values)))
      in Math_round (js_mul average (Fin 1000)))"

text \<open>
  Lines 116 to 123: the search for the peak, carrying \<^verbatim>\<open>(maxIndex, maxValue)\<close>; the
  second argument is the loop index \<^verbatim>\<open>i\<close>.
\<close>

fun peak_loop :: "number list \<Rightarrow> nat \<Rightarrow> nat \<times> number \<Rightarrow> nat \<times> number" where
  "peak_loop [] i acc = acc"
| "peak_loop (v # vs) i (maxIndex, maxValue) =
     peak_loop vs (Suc i)
       (if js_gt (Math_abs v) maxValue then (i, Math_abs v) else (maxIndex, maxValue))"

definition maxIndex_of :: "number list \<Rightarrow> nat" where
  "maxIndex_of values = fst (peak_loop values 0 (0, Fin 0))"

text \<open>Line 126: \<^verbatim>\<open>Math.round(maxIndex * (44100 / 2) / values.length)\<close>.\<close>

definition frequency_of :: "number list \<Rightarrow> number" where
  "frequency_of values =
     Math_round (js_div (js_mul (Fin (real (maxIndex_of values))) (js_div (Fin 44100) (Fin 2)))
                        (Fin (real (length values))))"

text \<open>
  \<^verbatim>\<open>frequencyBars.value[i] = x\<close>. The loop writes the indices 0, 1, ..., 31 in this
  order, so an index is at most the length of the array when it is written: a write
  at the length appends. (JavaScript would leave holes beyond; they are filled with NaN
  here and never arise.)
\<close>

definition array_set :: "number list \<Rightarrow> nat \<Rightarrow> number \<Rightarrow> number list" where
  "array_set xs i v =
     (if i < length xs then xs[i := v] else xs @ replicate (i - length xs) NaN @ [v])"

text \<open>Lines 141 to 147: the inner loop over \<^verbatim>\<open>j\<close>, with its index guard.\<close>

definition bar_sum :: "number list \<Rightarrow> nat \<Rightarrow> nat \<Rightarrow> number" where
  "bar_sum values samplesPerBar i =
     foldl (\<lambda>sum j. let index = i * samplesPerBar + j
                     in if index < length values then js_add sum (Math_abs (values ! index))
                        else sum)
           (Fin 0) [0..<samplesPerBar]"

text \<open>Lines 148 to 150: one bar.\<close>

definition bar_value :: "number list \<Rightarrow> nat \<Rightarrow> nat \<Rightarrow> number" where
  "bar_value values samplesPerBar i =
     (let average = js_div (bar_sum values samplesPerBar i) (Fin (real samplesPerBar))
      in Math_min (Fin 100) (js_mul average (Fin 500)))"

text \<open>
  Lines 136 to 152. \<^verbatim>\<open>Math.floor(values.length / bars)\<close> of two non-negative integers
  is the truncating quotient.
\<close>

definition updateFrequencyBars :: "number list \<Rightarrow> number list \<Rightarrow> number list" where
  "updateFrequencyBars values old =
     (let bars = 32; samplesPerBar = length values div bars
      in foldl (\<lambda>bs i. array_set bs i (bar_value values samplesPerBar i)) old [0..<bars])"

section \<open>The session\<close>

text \<open>
  The component's reactive values and module variables, followed by the part of the
  platform they act on: the animation-frame callbacks that are requested and not yet
  run or cancelled, the audio objects that are created and not yet disposed, and the
  console. \<^verbatim>\<open>mic\<close> and \<^verbatim>\<open>analyser\<close> hold a reference to an audio object or null.
\<close>

record state =
  frequency :: number
  volume :: number
  isRecording :: bool
  error :: string
  frequencyBars :: "number list"
  mic :: "nat option"
  analyser :: "nat option"
  animationFrameId :: "nat option"
  pending :: "nat list"
  nextFrameId :: nat
  live :: "nat list"
  nextObject :: nat
  console :: "string list"

text \<open>Lines 55 to 63. Animation-frame handles are non-zero.\<close>

definition init :: state where
  "init = \<lparr>frequency = Fin 0, volume = Fin (- 100), isRecording = False, error = [],
            frequencyBars = replicate 32 (Fin 0), mic = None, analyser = None,
            animationFrameId = None, pending = [], nextFrameId = 1, live = [],
            nextObject = 0, console = []\<rparr>"

text \<open>What \<^verbatim>\<open>analyser.getValue()\<close> does in one cycle: it throws, or returns a frame or null.\<close>

datatype poll = Throws | Returns "number list option"

text \<open>
  How far the acquisition in \<^verbatim>\<open>start\<close> gets: which of lines 77, 80, 81 and 83 throws
  (or rejects), if any.
\<close>

datatype acquisition = AnalyserFails | UserMediaFails | ConnectFails | OpenFails | Acquired

text \<open>\<^verbatim>\<open>new Analyser(...)\<close> and \<^verbatim>\<open>new UserMedia()\<close>: a fresh audio object.\<close>

definition new_object :: "state \<Rightarrow> state \<times> nat" where
  "new_object s = (s\<lparr>live := live s @ [nextObject s], nextObject := Suc (nextObject s)\<rparr>, nextObject s)"

definition dispose :: "nat \<Rightarrow> state \<Rightarrow> state" where
  "dispose obj s = s\<lparr>live := removeAll obj (live s)\<rparr>"

definition requestAnimationFrame :: "state \<Rightarrow> state \<times> nat" where
  "requestAnimationFrame s =
     (s\<lparr>pending := pending s @ [nextFrameId s], nextFrameId := Suc (nextFrameId s)\<rparr>, nextFrameId s)"

definition cancelAnimationFrame :: "nat \<Rightarrow> state \<Rightarrow> state" where
  "cancelAnimationFrame h s = s\<lparr>pending := removeAll h (pending s)\<rparr>"

definition console_error :: "string \<Rightarrow> state \<Rightarrow> state" where
  "console_error msg s = s\<lparr>console := console s @ [msg]\<rparr>"

text \<open>Lines 154 to 174. A handle is truthy when it is neither null nor 0.\<close>

definition stop :: "state \<Rightarrow> state" where
  "stop s =
     (let s1 = (case animationFrameId s of
                  None \<Rightarrow> s
                | Some h \<Rightarrow> if h = 0 then s
                            else (cancelAnimationFrame h s)\<lparr>animationFrameId := None\<rparr>);
          s2 = (case mic s1 of
                  None \<Rightarrow> s1
                | Some m \<Rightarrow> (dispose m s1)\<lparr>mic := None\<rparr>);
          s3 = (case analyser s2 of
                  None \<Rightarrow> s2
                | Some a \<Rightarrow> (dispose a s2)\<lparr>analyser := None\<rparr>)
      in s3\<lparr>isRecording := False, frequencyBars := replicate 32 (Fin 0)\<rparr>)"

text \<open>Lines 103 to 127: what a frame that is neither null nor empty publishes.\<close>

definition publish :: "number list \<Rightarrow> state \<Rightarrow> state" where
  "publish values s =
     (let s1 = s\<lparr>volume := volume_of values\<rparr>;
          s2 = s1\<lparr>frequencyBars := updateFrequencyBars values (frequencyBars s1)\<rparr>
      in s2\<lparr>frequency := frequency_of values\<rparr>)"

text \<open>
  Lines 96 to 134. Only \<^verbatim>\<open>getValue\<close> can throw inside the \<^verbatim>\<open>try\<close>: arithmetic on
  numbers never does.
\<close>

definition analyzeWithTone :: "state \<Rightarrow> poll \<Rightarrow> state" where
  "analyzeWithTone s p =
     (if analyser s = None \<or> \<not> isRecording s then s
      else case p of
        Throws \<Rightarrow> stop (console_error ''Analysis error:'' s)
      | Returns values \<Rightarrow>
          (let s1 = (case values of
                       None \<Rightarrow> s
                     | Some vs \<Rightarrow> if 0 < length vs then publish vs s else s);
               (s2, h) = requestAnimationFrame s1
           in s2\<lparr>animationFrameId := Some h\<rparr>))"

text \<open>The \<^verbatim>\<open>catch\<close> block of \<^verbatim>\<open>start\<close>, lines 89 to 93.\<close>

definition start_catch :: "state \<Rightarrow> state" where
  "start_catch s =
     (console_error ''Error with Tone.js:'' s)
       \<lparr>error := ''Failed to access microphone. Please check permissions and try again.'',
        isRecording := False\<rparr>"

text \<open>
  Lines 70 to 94, run to completion: the second argument says where the acquisition
  fails, the third what the first analysis polls. What happens while \<^verbatim>\<open>mic.open()\<close>
  is awaited is not modelled.
\<close>

definition start :: "state \<Rightarrow> acquisition \<Rightarrow> poll \<Rightarrow> state" where
  "start s acq p =
     (if isRecording s then s
      else
        let s0 = s\<lparr>error := []\<rparr> in
        if acq = AnalyserFails then start_catch s0
        else
          let (s1, a) = new_object s0;
              s2 = s1\<lparr>analyser := Some a\<rparr> in
          if acq = UserMediaFails then start_catch s2
          else
            let (s3, m) = new_object s2;
                s4 = s3\<lparr>mic := Some m\<rparr> in
            if acq = ConnectFails \<or> acq = OpenFails then start_catch s4
            else analyzeWithTone (s4\<lparr>isRecording := True\<rparr>) p)"

text \<open>
  What can happen to the component: a call of \<^verbatim>\<open>start\<close>, a call of \<^verbatim>\<open>stop\<close>
  (the button or \<^verbatim>\<open>onUnmounted\<close>), and a display refresh, which runs the oldest
  pending animation-frame callback; the only callback ever requested is
  \<^verbatim>\<open>analyzeWithTone\<close>.
\<close>

datatype event = Start acquisition poll | Stop | Refresh poll

fun step :: "state \<Rightarrow> event \<Rightarrow> state" where
  "step s (Start acq p) = start s acq p"
| "step s Stop = stop s"
| "step s (Refresh p) =
     (case pending s of
        [] \<Rightarrow> s
      | h # hs \<Rightarrow> analyzeWithTone (s\<lparr>pending := hs\<rparr>) p)"

definition run :: "event list \<Rightarrow> state" where
  "run es = foldl step init es"

section \<open>Predicates of the specification\<close>

text \<open>
  Index \<open>i\<close> is the lowest index that attains the maximum absolute magnitude of a frame:
  no magnitude of the frame is greater than the one at \<open>i\<close>, and no earlier sample has
  the same magnitude. The comparison is that of JavaScript.
\<close>

definition lowest_peak :: "number list \<Rightarrow> nat \<Rightarrow> bool" where
  "lowest_peak values i \<longleftrightarrow>
     i < length values \<and>
     (\<forall>j < length values. \<not> js_gt (Math_abs (values ! j)) (Math_abs (values ! i))) \<and>
     (\<forall>j < i. Math_abs (values ! j) \<noteq> Math_abs (values ! i))"


text \<open>A number of the interval from 0 to half the sample rate.\<close>

fun within_half_rate :: "number \<Rightarrow> bool" where
  "within_half_rate (Fin x) = (0 \<le> x \<and> x \<le> 44100 / 2)"
| "within_half_rate a = False"

text \<open>A real that is at least 0, or plus infinity.\<close>

fun nonneg :: "number \<Rightarrow> bool" where
  "nonneg (Fin x) = (0 \<le> x)"
| "nonneg PosInf = True"
| "nonneg a = False"

text \<open>
  The frame of 2048 samples that is zero everywhere but at index 1024, where it is 1, and
  the frame of 2048 samples a silent input gives (the transform reports minus infinity
  decibels in every bin).
\<close>

definition single_peak :: "number list" where
  "single_peak = replicate 1024 (Fin 0) @ Fin 1 # replicate 1023 (Fin 0)"


text \<open>What the search for the peak maintains, over the samples \<open>pre\<close> seen so far.\<close>

definition peak_inv :: "number list \<Rightarrow> nat \<times> number \<Rightarrow> bool" where
  "peak_inv pre acc \<longleftrightarrow>
     (\<forall>j < length pre. \<not> js_gt (Math_abs (pre ! j)) (snd acc)) \<and>
     (acc = (0, Fin 0) \<or>
      (fst acc < length pre \<and> Math_abs (pre ! fst acc) = snd acc \<and>
       (\<forall>j < fst acc. Math_abs (pre ! j) \<noteq> snd acc)))"

text \<open>
  What every operation maintains when each call of \<^verbatim>\<open>start\<close> runs to completion
  before the next event: the bars are 32; while recording, both audio objects are
  referenced, no error is shown and exactly the callback of \<^verbatim>\<open>animationFrameId\<close> is
  pending; otherwise no callback is pending. (A \<^verbatim>\<open>stop\<close> or a second \<^verbatim>\<open>start\<close> while
  \<^verbatim>\<open>mic.open()\<close> is awaited is outside the events of \<open>run\<close>; only the length of the
  bars does not depend on that.)
\<close>

definition session_inv :: "state \<Rightarrow> bool" where
  "session_inv s \<longleftrightarrow>
     length (frequencyBars s) = 32 \<and> 0 < nextFrameId s \<and>
     (if isRecording s
      then mic s \<noteq> None \<and> analyser s \<noteq> None \<and> error s = [] \<and>
           (case animationFrameId s of None \<Rightarrow> False | Some h \<Rightarrow> h \<noteq> 0 \<and> pending s = [h])
      else pending s = [])"

section \<open>Comparison and the search for the peak\<close>

lemma js_gt_NaN_right [simp]: "js_gt a NaN = False"
  by (cases a) simp_all

lemma js_gt_irrefl [simp]: "js_gt a a = False"
  by (cases a) simp_all

lemma js_gt_step:
  assumes "js_gt c b" and "\<not> js_gt a b"
  shows "\<not> js_gt a c" and "a \<noteq> c"
  using assms by (cases a; cases b; cases c; simp)+

lemma abs_not_gt_zero:
  "\<not> js_gt (Math_abs a) (Fin 0) \<Longrightarrow> Math_abs a = NaN \<or> Math_abs a = Fin 0"
  by (cases a) auto

lemma peak_inv_step:
  assumes "peak_inv pre (mi, mv)"
  shows "peak_inv (pre @ [v])
           (if js_gt (Math_abs v) mv then (length pre, Math_abs v) else (mi, mv))"
proof (cases "js_gt (Math_abs v) mv")
  case True
  have "\<not> js_gt (Math_abs (pre ! j)) (Math_abs v) \<and> Math_abs (pre ! j) \<noteq> Math_abs v"
    if "j < length pre" for j
    using assms that js_gt_step [OF True, of "Math_abs (pre ! j)"]
    by (simp add: peak_inv_def)
  with True show ?thesis
    by (auto simp: peak_inv_def nth_append less_Suc_eq)
next
  case False
  with assms show ?thesis
    by (auto simp: peak_inv_def nth_append less_Suc_eq)
qed

lemma peak_loop_inv:
  "peak_inv pre acc \<Longrightarrow> peak_inv (pre @ vs) (peak_loop vs (length pre) acc)"
proof (induction vs arbitrary: pre acc)
  case Nil
  then show ?case by simp
next
  case (Cons v vs)
  obtain mi mv where acc: "acc = (mi, mv)" by (cases acc)
  from Cons.prems have "peak_inv (pre @ [v])
      (if js_gt (Math_abs v) mv then (length pre, Math_abs v) else (mi, mv))"
    unfolding acc by (rule peak_inv_step)
  from Cons.IH [OF this] show ?case
    by (simp add: acc)
qed

lemma peak_inv_maxIndex: "peak_inv values (peak_loop values 0 (0, Fin 0))"
  using peak_loop_inv [of "[]" "(0, Fin 0)" "values"] by (simp add: peak_inv_def)

lemma maxIndex_of_less: "values \<noteq> [] \<Longrightarrow> maxIndex_of values < length values"
  using peak_inv_maxIndex [of "values"]
  by (auto simp: peak_inv_def maxIndex_of_def)

lemma maxIndex_of_lowest_peak:
  assumes "values \<noteq> []"
  shows "lowest_peak values (maxIndex_of values)"
proof -
  let ?acc = "peak_loop values 0 (0, Fin 0)"
  have inv: "peak_inv values ?acc" by (rule peak_inv_maxIndex)
  then have nogt: "\<forall>j < length values. \<not> js_gt (Math_abs (values ! j)) (snd ?acc)"
    by (simp add: peak_inv_def)
  from inv consider (start) "?acc = (0, Fin 0)"
    | (found) "fst ?acc < length values" "Math_abs (values ! fst ?acc) = snd ?acc"
        "\<forall>j < fst ?acc. Math_abs (values ! j) \<noteq> snd ?acc"
    by (auto simp: peak_inv_def)
  then show ?thesis
  proof cases
    case start
    with nogt assms have "\<not> js_gt (Math_abs (values ! 0)) (Fin 0)" by simp
    then have z: "Math_abs (values ! 0) = NaN \<or> Math_abs (values ! 0) = Fin 0"
      by (rule abs_not_gt_zero)
    have "\<not> js_gt (Math_abs (values ! j)) (Math_abs (values ! 0))" if "j < length values" for j
      using z nogt that start by auto
    with assms start show ?thesis
      by (simp add: lowest_peak_def maxIndex_of_def)
  next
    case found
    with nogt show ?thesis
      by (simp add: lowest_peak_def maxIndex_of_def)
  qed
qed

lemma frequency_of_eq:
  "values \<noteq> [] \<Longrightarrow>
   frequency_of values =
     Fin (of_int (round (real (maxIndex_of values) * (44100 / 2) / real (length values))))"
  by (simp add: frequency_of_def round_def)

lemma frequency_of_range:
  assumes "values \<noteq> []"
  shows "\<exists>k. frequency_of values = Fin (of_int k) \<and> 0 \<le> k \<and> k \<le> 22050"
proof -
  let ?n = "real (length values)" and ?m = "real (maxIndex_of values)"
  let ?q = "?m * (44100 / 2) / ?n"
  from assms have n: "0 < ?n" by simp
  from maxIndex_of_less [OF assms] have "?m < ?n" by simp
  with n have "?q < 22050" by (simp add: divide_simps)
  then have "?q + 1 / 2 < 22051" by simp
  then have up: "round ?q \<le> 22050" unfolding round_def by (simp add: floor_less_iff)
  have "0 \<le> ?q" by simp
  then have lo: "0 \<le> round ?q" unfolding round_def by simp
  from lo up frequency_of_eq [OF assms] show ?thesis by blast
qed

section \<open>Sums of magnitudes and the bars\<close>

lemma nonneg_abs: "a \<noteq> NaN \<Longrightarrow> nonneg (Math_abs a)"
  by (cases a) simp_all

lemma nonneg_add: "nonneg a \<Longrightarrow> nonneg b \<Longrightarrow> nonneg (js_add a b)"
  by (cases a; cases b) simp_all

lemma nonneg_abs_sum_from:
  "nonneg acc \<Longrightarrow> NaN \<notin> set vs \<Longrightarrow>
   nonneg (foldl (\<lambda>sum v. js_add sum (Math_abs v)) acc vs)"
proof (induction vs arbitrary: acc)
  case Nil
  then show ?case by simp
next
  case (Cons v vs)
  from Cons.prems have "nonneg (js_add acc (Math_abs v))"
    by (intro nonneg_add nonneg_abs) auto
  with Cons show ?case by simp
qed





lemma foldl_array_set:
  "n \<le> length old \<Longrightarrow>
   foldl (\<lambda>bs i. array_set bs i (f i)) old [0..<n] = map f [0..<n] @ drop n old"
proof (induction n)
  case 0
  then show ?case by simp
next
  case (Suc n)
  then have n: "n < length old" by simp
  then have "(drop n old)[0 := f n] = f n # drop (Suc n) old"
    by (simp add: Cons_nth_drop_Suc [symmetric])
  with Suc n show ?case
    by (simp add: array_set_def list_update_append)
qed

lemma updateFrequencyBars_map:
  "length old = 32 \<Longrightarrow>
   updateFrequencyBars values old = map (bar_value values (length values div 32)) [0..<32]"
  using foldl_array_set [of 32 old "bar_value values (length values div 32)"]
  by (simp add: updateFrequencyBars_def)

lemma length_updateFrequencyBars:
  "length old = 32 \<Longrightarrow> length (updateFrequencyBars values old) = 32"
  by (simp add: updateFrequencyBars_map)





section \<open>The volume\<close>











lemma peak_loop_append:
  "peak_loop (xs @ ys) i acc = peak_loop ys (i + length xs) (peak_loop xs i acc)"
  by (induction xs i acc rule: peak_loop.induct) simp_all

lemma peak_loop_zeros: "\<not> js_gt (Fin 0) mv \<Longrightarrow> peak_loop (replicate n (Fin 0)) i (mi, mv) = (mi, mv)"
  by (induction n arbitrary: i) simp_all

lemma maxIndex_of_single:
  "maxIndex_of (replicate n (Fin 0) @ Fin 1 # replicate m (Fin 0)) = n"
  by (simp add: maxIndex_of_def peak_loop_append peak_loop_zeros)

lemma length_single_peak: "length single_peak = 2048"
  by (simp add: single_peak_def)

lemma frequency_of_single_peak: "frequency_of single_peak = Fin 11025"
  by (simp add: frequency_of_def length_single_peak)
     (simp add: single_peak_def maxIndex_of_single)

lemma abs_sum_zeros:
  "foldl (\<lambda>sum v. js_add sum (Math_abs v)) (Fin a) (replicate n (Fin 0)) = Fin a"
  by (induction n) (simp_all add: replicate_app_Cons_same [symmetric] del: replicate_Suc, simp_all)

lemma volume_of_single_peak: "volume_of single_peak = Fin 0"
  by (simp add: volume_of_def length_single_peak)
     (simp add: single_peak_def abs_sum_def abs_sum_zeros)




section \<open>The operations on the session\<close>

lemma stop_fields [simp]:
  "frequency (stop s) = frequency s"
  "volume (stop s) = volume s"
  "error (stop s) = error s"
  "isRecording (stop s) = False"
  "frequencyBars (stop s) = replicate 32 (Fin 0)"
  "mic (stop s) = None"
  "analyser (stop s) = None"
  "nextFrameId (stop s) = nextFrameId s"
  "console (stop s) = console s"
  by (simp_all add: stop_def Let_def cancelAnimationFrame_def dispose_def split: option.splits)

lemma stop_pending:
  "pending (stop s) =
     (case animationFrameId s of
        None \<Rightarrow> pending s
      | Some h \<Rightarrow> if h = 0 then pending s else removeAll h (pending s))"
  by (simp add: stop_def Let_def cancelAnimationFrame_def dispose_def split: option.splits)

lemma stop_live:
  "live (stop s) =
     (let l1 = (case mic s of None \<Rightarrow> live s | Some m \<Rightarrow> removeAll m (live s))
      in case analyser s of None \<Rightarrow> l1 | Some a \<Rightarrow> removeAll a l1)"
  by (simp add: stop_def Let_def cancelAnimationFrame_def dispose_def split: option.splits)

lemma console_error_fields [simp]:
  "frequency (console_error msg s) = frequency s"
  "volume (console_error msg s) = volume s"
  "error (console_error msg s) = error s"
  "isRecording (console_error msg s) = isRecording s"
  "frequencyBars (console_error msg s) = frequencyBars s"
  "mic (console_error msg s) = mic s"
  "analyser (console_error msg s) = analyser s"
  "animationFrameId (console_error msg s) = animationFrameId s"
  "pending (console_error msg s) = pending s"
  "nextFrameId (console_error msg s) = nextFrameId s"
  "live (console_error msg s) = live s"
  by (simp_all add: console_error_def)

lemma session_inv_stop: "session_inv s \<Longrightarrow> session_inv (stop s)"
  by (auto simp: session_inv_def stop_pending split: option.splits if_splits)

lemma analyzeWithTone_skipped:
  "analyser s = None \<or> \<not> isRecording s \<Longrightarrow> analyzeWithTone s p = s"
  by (simp add: analyzeWithTone_def)

lemma analyzeWithTone_Throws:
  "isRecording s \<Longrightarrow> analyser s \<noteq> None \<Longrightarrow>
   analyzeWithTone s Throws = stop (console_error ''Analysis error:'' s)"
  by (auto simp: analyzeWithTone_def)

lemma analyzeWithTone_publishes:
  assumes "isRecording s" and "analyser s \<noteq> None" and "values \<noteq> []"
  shows "volume (analyzeWithTone s (Returns (Some values))) = volume_of values"
    and "frequency (analyzeWithTone s (Returns (Some values))) = frequency_of values"
    and "frequencyBars (analyzeWithTone s (Returns (Some values))) =
           updateFrequencyBars values (frequencyBars s)"
  using assms
  by (auto simp: analyzeWithTone_def publish_def requestAnimationFrame_def Let_def)

lemma analyzeWithTone_no_update:
  assumes "values = None \<or> values = Some []"
  shows "volume (analyzeWithTone s (Returns values)) = volume s"
    and "frequency (analyzeWithTone s (Returns values)) = frequency s"
    and "frequencyBars (analyzeWithTone s (Returns values)) = frequencyBars s"
    and "error (analyzeWithTone s (Returns values)) = error s"
    and "isRecording (analyzeWithTone s (Returns values)) = isRecording s"
    and "mic (analyzeWithTone s (Returns values)) = mic s"
    and "analyser (analyzeWithTone s (Returns values)) = analyser s"
    and "console (analyzeWithTone s (Returns values)) = console s"
  using assms
  by (auto simp: analyzeWithTone_def requestAnimationFrame_def Let_def)

lemma analyzeWithTone_Returns_control:
  assumes "isRecording s" and "analyser s \<noteq> None"
  shows "isRecording (analyzeWithTone s (Returns values))"
    and "mic (analyzeWithTone s (Returns values)) = mic s"
    and "analyser (analyzeWithTone s (Returns values)) = analyser s"
    and "error (analyzeWithTone s (Returns values)) = error s"
    and "pending (analyzeWithTone s (Returns values)) = pending s @ [nextFrameId s]"
    and "animationFrameId (analyzeWithTone s (Returns values)) = Some (nextFrameId s)"
    and "nextFrameId (analyzeWithTone s (Returns values)) = Suc (nextFrameId s)"
  using assms
  by (auto simp: analyzeWithTone_def publish_def requestAnimationFrame_def Let_def
      split: option.splits)

lemma length_bars_analyzeWithTone:
  "length (frequencyBars s) = 32 \<Longrightarrow> length (frequencyBars (analyzeWithTone s p)) = 32"
  by (cases p)
     (auto simp: analyzeWithTone_def publish_def requestAnimationFrame_def Let_def
        length_updateFrequencyBars split: option.splits)

lemma session_inv_cycle:
  assumes "isRecording s" and "analyser s \<noteq> None" and "mic s \<noteq> None" and "pending s = []"
    and "length (frequencyBars s) = 32" and "0 < nextFrameId s" and "error s = []"
  shows "session_inv (analyzeWithTone s p)"
proof (cases p)
  case Throws
  with assms show ?thesis
    by (simp add: analyzeWithTone_Throws session_inv_def stop_pending split: option.splits)
next
  case (Returns frame)
  with assms show ?thesis
    using length_bars_analyzeWithTone [of s p]
    by (simp add: session_inv_def analyzeWithTone_Returns_control)
qed

lemma start_catch_fields [simp]:
  "isRecording (start_catch s) = False"
  "error (start_catch s) = ''Failed to access microphone. Please check permissions and try again.''"
  "frequency (start_catch s) = frequency s"
  "volume (start_catch s) = volume s"
  "frequencyBars (start_catch s) = frequencyBars s"
  "mic (start_catch s) = mic s"
  "analyser (start_catch s) = analyser s"
  "pending (start_catch s) = pending s"
  "nextFrameId (start_catch s) = nextFrameId s"
  "animationFrameId (start_catch s) = animationFrameId s"
  "live (start_catch s) = live s"
  by (simp_all add: start_catch_def)

lemma start_recording: "isRecording s \<Longrightarrow> start s acq p = s"
  by (simp add: start_def)

lemma start_Acquired:
  "\<not> isRecording s \<Longrightarrow>
   start s Acquired p =
     analyzeWithTone
       (s\<lparr>error := [], analyser := Some (nextObject s),
          live := live s @ [nextObject s, Suc (nextObject s)],
          nextObject := Suc (Suc (nextObject s)),
          mic := Some (Suc (nextObject s)), isRecording := True\<rparr>) p"
  by (simp add: start_def new_object_def Let_def)

lemma session_inv_start: "session_inv s \<Longrightarrow> session_inv (start s acq p)"
proof (cases "isRecording s")
  case True
  then show "session_inv s \<Longrightarrow> ?thesis" by (simp add: start_recording)
next
  case False
  assume inv: "session_inv s"
  show ?thesis
  proof (cases "acq = Acquired")
    case True
    with False inv show ?thesis
      by (simp add: start_Acquired) (rule session_inv_cycle; simp add: session_inv_def)
  next
    case False
    with \<open>\<not> isRecording s\<close> inv show ?thesis
      by (cases acq) (simp_all add: start_def new_object_def Let_def session_inv_def)
  qed
qed

lemma session_inv_step: "session_inv s \<Longrightarrow> session_inv (step s e)"
proof (cases e)
  case (Start acq p)
  then show "session_inv s \<Longrightarrow> ?thesis" by (simp add: session_inv_start)
next
  case Stop
  then show "session_inv s \<Longrightarrow> ?thesis" by (simp add: session_inv_stop)
next
  case (Refresh p)
  assume inv: "session_inv s"
  show ?thesis
  proof (cases "pending s")
    case Nil
    with Refresh inv show ?thesis by simp
  next
    case (Cons h hs)
    with inv have "isRecording s" "analyser s \<noteq> None" "mic s \<noteq> None" "hs = []"
      "length (frequencyBars s) = 32" "0 < nextFrameId s" "error s = []"
      by (auto simp: session_inv_def split: if_splits option.splits)
    then have "session_inv (analyzeWithTone (s\<lparr>pending := hs\<rparr>) p)"
      by (intro session_inv_cycle) simp_all
    with Refresh Cons show ?thesis by simp
  qed
qed

lemma session_inv_init: "session_inv init"
  by (simp add: session_inv_def init_def)

lemma session_inv_run: "session_inv (run es)"
  unfolding run_def
  by (induction es rule: rev_induct) (simp_all add: session_inv_init session_inv_step)

lemma js_gt_total: "a \<noteq> NaN \<Longrightarrow> b \<noteq> NaN \<Longrightarrow> js_gt a b \<or> js_gt b a \<or> a = b"
  by (cases a; cases b) auto

lemma abs_NaN_iff: "Math_abs a = NaN \<longleftrightarrow> a = NaN"
  by (cases a) simp_all

lemma lowest_peak_unique:
  assumes "NaN \<notin> set values" and "lowest_peak values i" and "lowest_peak values j"
  shows "i = j"
proof -
  have *: False if "lowest_peak values a" "lowest_peak values b" "a < b" for a b
  proof -
    let ?ma = "Math_abs (values ! a)" and ?mb = "Math_abs (values ! b)"
    from that have len: "a < length values" "b < length values"
      by (simp_all add: lowest_peak_def)
    with assms(1) have "values ! a \<noteq> NaN" "values ! b \<noteq> NaN"
      by (metis nth_mem)+
    then have "?ma \<noteq> NaN" "?mb \<noteq> NaN" by (simp_all add: abs_NaN_iff)
    moreover from that len have "\<not> js_gt ?mb ?ma" "\<not> js_gt ?ma ?mb" "?ma \<noteq> ?mb"
      by (simp_all add: lowest_peak_def)
    ultimately show False using js_gt_total by blast
  qed
  from assms(2,3) show ?thesis
    by (cases i j rule: linorder_cases) (auto dest: *)
qed

lemma start_publishes:
  assumes "\<not> isRecording s" and "vs \<noteq> []"
  shows "frequency (start s Acquired (Returns (Some vs))) = frequency_of vs"
    and "volume (start s Acquired (Returns (Some vs))) = volume_of vs"
    and "frequencyBars (start s Acquired (Returns (Some vs))) =
           updateFrequencyBars vs (frequencyBars s)"
    and "isRecording (start s Acquired (Returns (Some vs)))"
  using assms
  by (simp_all add: start_Acquired analyzeWithTone_publishes analyzeWithTone_Returns_control)

lemma within_half_rate_frequency_of: "values \<noteq> [] \<Longrightarrow> within_half_rate (frequency_of values)"
  using frequency_of_range [of "values"] by auto

lemma within_half_rate_analyzeWithTone:
  "within_half_rate (frequency s) \<Longrightarrow> within_half_rate (frequency (analyzeWithTone s p))"
proof (cases "analyser s = None \<or> \<not> isRecording s")
  case True
  then show "within_half_rate (frequency s) \<Longrightarrow> ?thesis"
    by (simp add: analyzeWithTone_skipped)
next
  case False
  assume ok: "within_half_rate (frequency s)"
  show ?thesis
  proof (cases p)
    case Throws
    with False ok show ?thesis by (simp add: analyzeWithTone_Throws)
  next
    case (Returns frame)
    show ?thesis
    proof (cases "frame = None \<or> frame = Some []")
      case True
      with Returns ok show ?thesis by (simp add: analyzeWithTone_no_update)
    next
      case False
      then obtain vs where "frame = Some vs" "vs \<noteq> []" by auto
      with Returns \<open>\<not> (analyser s = None \<or> \<not> isRecording s)\<close> show ?thesis
        by (simp add: analyzeWithTone_publishes within_half_rate_frequency_of)
    qed
  qed
qed

lemma within_half_rate_step:
  assumes "within_half_rate (frequency s)"
  shows "within_half_rate (frequency (step s e))"
proof (cases e)
  case (Start acq p)
  show ?thesis
  proof (cases "isRecording s \<or> acq \<noteq> Acquired")
    case True
    with Start assms show ?thesis
      by (cases acq) (auto simp: start_def new_object_def Let_def)
  next
    case False
    with Start assms show ?thesis
      by (simp add: start_Acquired within_half_rate_analyzeWithTone)
  qed
next
  case Stop
  with assms show ?thesis by simp
next
  case (Refresh p)
  with assms show ?thesis
    by (cases "pending s") (simp_all add: within_half_rate_analyzeWithTone)
qed

lemma within_half_rate_run: "within_half_rate (frequency (run es))"
  unfolding run_def
  by (induction es rule: rev_induct) (simp_all add: init_def within_half_rate_step)


lemma recording_holds_resources:
  "isRecording (run es) \<Longrightarrow> mic (run es) \<noteq> None \<and> analyser (run es) \<noteq> None"
  using session_inv_run [of es] by (simp add: session_inv_def)




lemma init_fields [simp]:
  "frequency init = Fin 0"
  "volume init = Fin (- 100)"
  "isRecording init = False"
  "error init = []"
  "frequencyBars init = replicate 32 (Fin 0)"
  "mic init = None"
  "analyser init = None"
  "animationFrameId init = None"
  "pending init = []"
  "nextFrameId init = 1"
  "live init = []"
  "nextObject init = 0"
  "console init = []"
  by (simp_all add: init_def)

lemma analyzeWithTone_Throws_fields:
  assumes "isRecording s" and "analyser s \<noteq> None"
  shows "isRecording (analyzeWithTone s Throws) = False"
    and "mic (analyzeWithTone s Throws) = None"
    and "analyser (analyzeWithTone s Throws) = None"
    and "error (analyzeWithTone s Throws) = error s"
    and "console (analyzeWithTone s Throws) = console s @ [''Analysis error:'']"
  using assms by (simp_all add: analyzeWithTone_Throws console_error_def)

lemma start_failure_reports:
  assumes "\<not> isRecording s" and "acq \<noteq> Acquired"
  shows "error (start s acq p) \<noteq> [] \<and> \<not> isRecording (start s acq p)"
  using assms by (cases acq) (simp_all add: start_def new_object_def Let_def)

text \<open>The state in which a session has just started and the first poll returned no frame.\<close>

lemma started_fields:
  "isRecording (run [Start Acquired (Returns None)])"
  "analyser (run [Start Acquired (Returns None)]) = Some 0"
  "mic (run [Start Acquired (Returns None)]) = Some 1"
  "pending (run [Start Acquired (Returns None)]) = [1]"
  "live (run [Start Acquired (Returns None)]) = [0, 1]"
  "error (run [Start Acquired (Returns None)]) = []"
  "console (run [Start Acquired (Returns None)]) = []"
  "frequency (run [Start Acquired (Returns None)]) = Fin 0"
  "volume (run [Start Acquired (Returns None)]) = Fin (- 100)"
  "frequencyBars (run [Start Acquired (Returns None)]) = replicate 32 (Fin 0)"
  by (simp_all add: run_def start_Acquired analyzeWithTone_def requestAnimationFrame_def)

lemma start_Acquired_control:
  assumes "\<not> isRecording s"
  shows "isRecording (start s Acquired (Returns frame))"
    and "error (start s Acquired (Returns frame)) = []"
    and "analyser (start s Acquired (Returns frame)) = Some (nextObject s)"
    and "mic (start s Acquired (Returns frame)) = Some (Suc (nextObject s))"
    and "pending (start s Acquired (Returns frame)) = pending s @ [nextFrameId s]"
  using assms
  by (simp_all add: start_Acquired analyzeWithTone_Returns_control)

text \<open>The state in which a session has just started and the first poll returned the
  frame with the single peak.\<close>

lemma single_peak_session:
  "isRecording (run [Start Acquired (Returns (Some single_peak))])"
  "error (run [Start Acquired (Returns (Some single_peak))]) = []"
  "frequency (run [Start Acquired (Returns (Some single_peak))]) = Fin 11025"
  "volume (run [Start Acquired (Returns (Some single_peak))]) = Fin 0"
proof -
  have "single_peak \<noteq> []" using length_single_peak by auto
  then show
    "isRecording (run [Start Acquired (Returns (Some single_peak))])"
    "error (run [Start Acquired (Returns (Some single_peak))]) = []"
    "frequency (run [Start Acquired (Returns (Some single_peak))]) = Fin 11025"
    "volume (run [Start Acquired (Returns (Some single_peak))]) = Fin 0"
    by (simp_all add: run_def start_publishes start_Acquired_control
        frequency_of_single_peak volume_of_single_peak)
qed

section \<open>The claims about the reduction\<close>




text \<open>
  C6. Every frequency the component ever holds, after any history of starts, stops and
  display refreshes, lies between 0 and half the sample rate of 44100; and the frequency
  an analysis cycle publishes for a frame with at least one sample lies there, whatever
  the samples are. (An empty frame publishes nothing.)
\<close>

theorem frequency_within_half_rate:
  "within_half_rate (frequency (run es)) \<and>
   (isRecording s \<and> analyser s \<noteq> None \<and> values \<noteq> [] \<longrightarrow>
      within_half_rate (frequency (analyzeWithTone s (Returns (Some values)))))"
  by (simp add: within_half_rate_run analyzeWithTone_publishes within_half_rate_frequency_of)

theorem frequency_within_half_rate_witness:
  "within_half_rate (frequency (run [Start Acquired (Returns (Some single_peak)), Stop])) \<and>
   isRecording (run [Start Acquired (Returns None)]) \<and>
   analyser (run [Start Acquired (Returns None)]) \<noteq> None \<and>
   [Fin 0, NegInf, NaN] \<noteq> [] \<and>
   within_half_rate
     (frequency (analyzeWithTone (run [Start Acquired (Returns None)])
        (Returns (Some [Fin 0, NegInf, NaN]))))"
  using frequency_within_half_rate
    [of "[Start Acquired (Returns (Some single_peak)), Stop]"
      "run [Start Acquired (Returns None)]" "[Fin 0, NegInf, NaN]"]
  by (simp add: started_fields)

text \<open>
  C7. In a running analysis cycle (the guard of line 97 passes) whose frame has at least
  one sample, the published frequency is \<open>round (i * (44100 / 2) / length)\<close> for an
  index \<open>i\<close> that is a lowest index attaining the maximum absolute magnitude; when no
  sample is NaN there is exactly one such index. In particular, the frame of 2048
  samples with the single sample 1 at index 1024 gives 11025.
\<close>

theorem peak_frequency:
  assumes "isRecording s" and "analyser s \<noteq> None" and "values \<noteq> []"
  shows "(\<exists>i. lowest_peak values i \<and>
              (NaN \<notin> set values \<longrightarrow> (\<forall>j. lowest_peak values j \<longrightarrow> j = i)) \<and>
              frequency (analyzeWithTone s (Returns (Some values))) =
                Fin (of_int (round (real i * (44100 / 2) / real (length values))))) \<and>
         length single_peak = 2048 \<and> single_peak ! 1024 = Fin 1 \<and>
         frequency (analyzeWithTone s (Returns (Some single_peak))) = Fin 11025"
proof -
  let ?i = "maxIndex_of values"
  have peak: "lowest_peak values ?i"
    using assms(3) by (rule maxIndex_of_lowest_peak)
  then have "\<forall>j. lowest_peak values j \<longrightarrow> j = ?i" if "NaN \<notin> set values"
    using that lowest_peak_unique by blast
  moreover have "frequency (analyzeWithTone s (Returns (Some values))) =
      Fin (of_int (round (real ?i * (44100 / 2) / real (length values))))"
    using assms by (simp add: analyzeWithTone_publishes frequency_of_eq)
  moreover have "single_peak \<noteq> []"
    using length_single_peak by auto
  then have "frequency (analyzeWithTone s (Returns (Some single_peak))) = Fin 11025"
    using assms(1,2) by (simp add: analyzeWithTone_publishes frequency_of_single_peak)
  moreover have "single_peak ! 1024 = Fin 1"
    by (simp add: single_peak_def nth_append)
  ultimately show ?thesis
    using peak length_single_peak by blast
qed

theorem peak_frequency_witness:
  "isRecording (run [Start Acquired (Returns None)]) \<and>
   analyser (run [Start Acquired (Returns None)]) \<noteq> None \<and>
   [Fin 0, Fin (- 3), NaN, Fin 3] \<noteq> [] \<and>
   (\<exists>i. lowest_peak [Fin 0, Fin (- 3), NaN, Fin 3] i \<and>
        frequency (analyzeWithTone (run [Start Acquired (Returns None)])
          (Returns (Some [Fin 0, Fin (- 3), NaN, Fin 3]))) =
          Fin (of_int (round (real i * (44100 / 2) / real (length [Fin 0, Fin (- 3), NaN, Fin 3]))))) \<and>
   frequency (analyzeWithTone (run [Start Acquired (Returns None)])
     (Returns (Some single_peak))) = Fin 11025"
proof -
  have h1: "isRecording (run [Start Acquired (Returns None)])"
    and h2: "analyser (run [Start Acquired (Returns None)]) \<noteq> None"
    and h3: "[Fin 0, Fin (- 3), NaN, Fin 3] \<noteq> []"
    by (simp_all add: started_fields)
  from peak_frequency [OF h1 h2 h3] h1 h2 show ?thesis
    by blast
qed

text \<open>
  C9. When \<^verbatim>\<open>getValue\<close> returns null or a frame without samples, the cycle leaves
  frequency, volume, bars and the error message as they were, keeps the recording flag,
  logs nothing (the \<^verbatim>\<open>catch\<close> block is not entered) and, when the guard of line 97
  passes, requests the next cycle as after any other frame.
\<close>

theorem empty_frame_no_update:
  assumes "frame = None \<or> frame = Some []"
  shows "frequency (analyzeWithTone s (Returns frame)) = frequency s \<and>
         volume (analyzeWithTone s (Returns frame)) = volume s \<and>
         frequencyBars (analyzeWithTone s (Returns frame)) = frequencyBars s \<and>
         error (analyzeWithTone s (Returns frame)) = error s \<and>
         isRecording (analyzeWithTone s (Returns frame)) = isRecording s \<and>
         console (analyzeWithTone s (Returns frame)) = console s \<and>
         (isRecording s \<and> analyser s \<noteq> None \<longrightarrow>
            pending (analyzeWithTone s (Returns frame)) = pending s @ [nextFrameId s])"
  using assms
  by (simp add: analyzeWithTone_no_update analyzeWithTone_Returns_control)

theorem empty_frame_no_update_witness:
  "(Some [] = None \<or> Some [] = Some ([] :: number list)) \<and>
   frequency (analyzeWithTone (run [Start Acquired (Returns (Some single_peak))]) (Returns (Some [])))
     = Fin 11025 \<and>
   volume (analyzeWithTone (run [Start Acquired (Returns (Some single_peak))]) (Returns (Some [])))
     = Fin 0 \<and>
   error (analyzeWithTone (run [Start Acquired (Returns (Some single_peak))]) (Returns (Some [])))
     = [] \<and>
   isRecording (analyzeWithTone (run [Start Acquired (Returns (Some single_peak))]) (Returns (Some [])))"
proof -
  have h: "Some [] = None \<or> Some [] = Some ([] :: number list)" by simp
  from empty_frame_no_update [OF h, of "run [Start Acquired (Returns (Some single_peak))]"]
  show ?thesis
    by (simp add: single_peak_session)
qed




section \<open>The claims about the session\<close>






text \<open>
  C2, at the failing input: a session has started (the first poll returned null) and
  \<^verbatim>\<open>getValue\<close> throws in the next cycle. The \<^verbatim>\<open>catch\<close> block of \<^verbatim>\<open>analyzeWithTone\<close>
  logs to the console and calls \<^verbatim>\<open>stop\<close>: the recording flag is false, both audio
  objects are disposed and no longer referenced, and no callback is pending. The error
  message is still empty: this block never assigns \<^verbatim>\<open>error\<close>, where the \<^verbatim>\<open>catch\<close>
  block of \<^verbatim>\<open>start\<close> does. (In every state in which the guard of line 97 passes, a
  throwing cycle leaves \<^verbatim>\<open>error\<close> as it was: \<open>analyzeWithTone_Throws_fields\<close>.)
\<close>

theorem analysis_error_publishes_no_message:
  "isRecording (run [Start Acquired (Returns None)]) \<and>
   error (run [Start Acquired (Returns None)]) = [] \<and>
   error (run [Start Acquired (Returns None), Refresh Throws]) = [] \<and>
   isRecording (run [Start Acquired (Returns None), Refresh Throws]) = False \<and>
   mic (run [Start Acquired (Returns None), Refresh Throws]) = None \<and>
   analyser (run [Start Acquired (Returns None), Refresh Throws]) = None \<and>
   live (run [Start Acquired (Returns None), Refresh Throws]) = [] \<and>
   pending (run [Start Acquired (Returns None), Refresh Throws]) = [] \<and>
   console (run [Start Acquired (Returns None), Refresh Throws]) = [''Analysis error:'']"
  by (simp add: run_def start_Acquired analyzeWithTone_def requestAnimationFrame_def
      stop_pending stop_live console_error_def)

text \<open>
  C3, at the failing input: the first call of \<^verbatim>\<open>start\<close>, with \<^verbatim>\<open>mic.open()\<close> rejected.
  The error message is set and the recording flag is false, and the analyser and the
  microphone object created before the failure are neither disposed nor dropped:
  \<^verbatim>\<open>analyser\<close> and \<^verbatim>\<open>mic\<close> still refer to them. A later successful session replaces the
  references, and after its \<^verbatim>\<open>stop\<close> the two objects are still not disposed.
\<close>

theorem failed_start_keeps_objects:
  "error (run [Start OpenFails (Returns None)]) \<noteq> [] \<and>
   isRecording (run [Start OpenFails (Returns None)]) = False \<and>
   analyser (run [Start OpenFails (Returns None)]) = Some 0 \<and>
   mic (run [Start OpenFails (Returns None)]) = Some 1 \<and>
   live (run [Start OpenFails (Returns None)]) = [0, 1] \<and>
   live (run [Start OpenFails (Returns None), Start Acquired (Returns None), Stop]) = [0, 1]"
  by (simp add: run_def start_def new_object_def Let_def analyzeWithTone_def
      requestAnimationFrame_def stop_live start_catch_def console_error_def)

text \<open>
  C4, at the failing input: after a call of \<^verbatim>\<open>start\<close> in which \<^verbatim>\<open>mic.open()\<close> is
  rejected, the recording flag is false and both audio objects are held; after one in
  which \<^verbatim>\<open>new UserMedia()\<close> throws, the flag is false and the analyser is held.
\<close>

theorem failed_start_breaks_invariant:
  "isRecording (run [Start OpenFails (Returns None)]) = False \<and>
   mic (run [Start OpenFails (Returns None)]) \<noteq> None \<and>
   analyser (run [Start OpenFails (Returns None)]) \<noteq> None \<and>
   isRecording (run [Start UserMediaFails (Returns None)]) = False \<and>
   mic (run [Start UserMediaFails (Returns None)]) = None \<and>
   analyser (run [Start UserMediaFails (Returns None)]) \<noteq> None"
  by (simp add: run_def start_def new_object_def Let_def)

end
